theory Spec2Isabelle
  imports Main "HOL-Library.Char_ord" "HOL-Library.List_Lexorder"
begin

section \<open>Markdown nodes\<close>

text \<open>
  A markdown post as the GraphQL queries of \<^verbatim>\<open>gatsby-node.js\<close> and
  \<^verbatim>\<open>src/templates/tag.jsx\<close> select it: \<^verbatim>\<open>id\<close>, \<^verbatim>\<open>frontmatter { title description date tags }\<close>
  and \<^verbatim>\<open>fields { slug }\<close>. The front matter's \<^verbatim>\<open>tags\<close> list is optional
  (the posts without a \<^verbatim>\<open>tags:\<close> block have \<^verbatim>\<open>null\<close> there), hence the option.
  The type \<open>'d\<close> of dates is any linear order: the code never looks into a date, only
  the queries sort by it. The field \<^verbatim>\<open>id\<close> is called \<open>node_id\<close>, since \<open>id\<close> is
  the identity function of HOL, and \<^verbatim>\<open>fields\<close> is called \<open>node_fields\<close>, since
  every record has a constant \<open>fields\<close> of its own.
\<close>

record 'd frontmatter =
  title :: string
  description :: string
  date :: 'd
  tags :: "string list option"

record fields_object =
  slug :: string

record 'd node =
  node_id :: string
  frontmatter :: "'d frontmatter"
  node_fields :: fields_object

section \<open>The GraphQL queries over \<^verbatim>\<open>allMarkdownRemark\<close>\<close>

text \<open>
  The two queries of the source differ in the three arguments of
  \<^verbatim>\<open>allMarkdownRemark\<close> only: the direction of
  \<^verbatim>\<open>sort: { frontmatter: { date: ... } }\<close>, the optional
  \<^verbatim>\<open>filter: { frontmatter: { tags: { in: [...] } } }\<close> and the optional \<^verbatim>\<open>limit\<close>.
\<close>

datatype sort_order = ASC | DESC

record gql_query =
  sort_date :: sort_order
  filter_tags_in :: "string list option"
  limit :: "nat option"

text \<open>The query of \<^verbatim>\<open>exports.createPages\<close>:
  \<^verbatim>\<open>allMarkdownRemark(sort: { frontmatter: { date: ASC } }, limit: 1000)\<close>.\<close>

definition posts_query :: gql_query where
  "posts_query = \<lparr>sort_date = ASC, filter_tags_in = None, limit = Some 1000\<rparr>"

text \<open>The page query \<^verbatim>\<open>BlogPostsByTag($tag: String!)\<close> of the tag template:
  \<^verbatim>\<open>allMarkdownRemark(sort: { frontmatter: { date: DESC } }, filter: { frontmatter: { tags: { in: [$tag] } } })\<close>.\<close>

definition pageQuery :: "string \<Rightarrow> gql_query" where
  "pageQuery tag = \<lparr>sort_date = DESC, filter_tags_in = Some [tag], limit = None\<rparr>"

text \<open>
  The \<^verbatim>\<open>in\<close> operator on a list field: the node matches when one element of its
  list is among the given values; a node whose field is \<^verbatim>\<open>null\<close> does not match.
\<close>

definition tags_in :: "string list \<Rightarrow> 'd node \<Rightarrow> bool" where
  "tags_in vs n =
     (case tags (frontmatter n) of
        None \<Rightarrow> False
      | Some ts \<Rightarrow> list_ex (\<lambda>t. t \<in> set vs) ts)"

text \<open>
  The queries name the sort key and the direction only. Nodes of equal date keep the
  order of the store here, in both directions (a stable sort); the statements about
  order below compare dates only and do not depend on how ties fall.
\<close>

definition sort_nodes :: "sort_order \<Rightarrow> ('d::linorder) node list \<Rightarrow> 'd node list" where
  "sort_nodes ord ns =
     (case ord of
        ASC \<Rightarrow> sort_key (\<lambda>n. date (frontmatter n)) ns
      | DESC \<Rightarrow> rev (sort_key (\<lambda>n. date (frontmatter n)) (rev ns)))"

text \<open>The engine filters, then sorts, then cuts the result at the limit.\<close>

definition allMarkdownRemark :: "('d::linorder) node list \<Rightarrow> gql_query \<Rightarrow> 'd node list" where
  "allMarkdownRemark store q =
     (let matched = (case filter_tags_in q of
                       None \<Rightarrow> store
                     | Some vs \<Rightarrow> filter (tags_in vs) store);
          sorted_nodes = sort_nodes (sort_date q) matched
      in case limit q of
           None \<Rightarrow> sorted_nodes
         | Some k \<Rightarrow> take k sorted_nodes)"

text \<open>
  What \<^verbatim>\<open>await graphql(...)\<close> returns: \<^verbatim>\<open>result.errors\<close>, and
  \<^verbatim>\<open>result.data.allMarkdownRemark.nodes\<close>.
\<close>

record 'd gql_result =
  errors :: "string list option"
  data_nodes :: "'d node list"

section \<open>Pages and the build state\<close>

text \<open>
  The values the source puts into a page context: a string or \<^verbatim>\<open>null\<close>. A context
  object is the list of its properties in the order of the object literal.
\<close>

datatype jsval = JNull | JString string

record page =
  path :: string
  component :: string
  pageContext :: "(string \<times> jsval) list"

definition blogPostTemplate :: string where
  "blogPostTemplate = ''./src/templates/blog-post.jsx''"

definition tagTemplate :: string where
  "tagTemplate = ''./src/templates/tag.jsx''"

text \<open>
  The effects of \<^verbatim>\<open>createPages\<close>: the pages registered with
  \<^verbatim>\<open>actions.createPage\<close>, in the order of the calls, and the call of
  \<^verbatim>\<open>reporter.panicOnBuild\<close>, if any.
\<close>

record build =
  pages :: "page list"
  panic :: "(string \<times> string list) option"

definition createPage :: "page \<Rightarrow> build \<Rightarrow> build" where
  "createPage pg st = st\<lparr>pages := pages st @ [pg]\<rparr>"

definition panicOnBuild :: "string \<Rightarrow> string list \<Rightarrow> build \<Rightarrow> build" where
  "panicOnBuild msg errs st = st\<lparr>panic := Some (msg, errs)\<rparr>"

section \<open>\<^verbatim>\<open>exports.createPages\<close>\<close>

text \<open>
  A JavaScript \<^verbatim>\<open>Set\<close> of strings is the list of its elements in insertion order
  (the order \<^verbatim>\<open>Array.from\<close> returns); \<^verbatim>\<open>add\<close> ignores an element already there.
\<close>

definition Set_add :: "'a \<Rightarrow> 'a list \<Rightarrow> 'a list" where
  "Set_add x s = (if x \<in> set s then s else s @ [x])"

text \<open>\<^verbatim>\<open>post.frontmatter.tags?.forEach((tag) => { tags.add(tag) })\<close>: the optional
  chaining skips the loop when the list is \<^verbatim>\<open>null\<close>.\<close>

definition add_post_tags :: "'d node \<Rightarrow> string list \<Rightarrow> string list" where
  "add_post_tags post tgs =
     (case tags (frontmatter post) of
        None \<Rightarrow> tgs
      | Some ts \<Rightarrow> fold Set_add ts tgs)"

text \<open>The page of the post at \<open>index\<close>. Both reads of \<open>posts\<close> are in range when
  \<open>index < length posts\<close>, which is how \<^verbatim>\<open>forEach\<close> calls it.\<close>

definition post_page :: "'d node list \<Rightarrow> nat \<Rightarrow> 'd node \<Rightarrow> page" where
  "post_page posts index post =
     (let previousPostId =
            (if index = 0 then JNull else JString (node_id (posts ! (index - 1))));
          nextPostId =
            (if int index = int (length posts) - 1 then JNull
             else JString (node_id (posts ! (index + 1))))
      in \<lparr>path = slug (node_fields post),
          component = blogPostTemplate,
          pageContext = [(''id'', JString (node_id post)),
                         (''previousPostId'', previousPostId),
                         (''nextPostId'', nextPostId)]\<rparr>)"

definition tag_page :: "string \<Rightarrow> page" where
  "tag_page tag =
     \<lparr>path = ''/tags/'' @ tag @ ''/'',
      component = tagTemplate,
      pageContext = [(''tag'', JString tag)]\<rparr>"

text \<open>The body of \<^verbatim>\<open>posts.forEach((post, index) => ...)\<close>, on the set of tags and
  the build state.\<close>

definition each_post ::
  "'d node list \<Rightarrow> nat \<times> 'd node \<Rightarrow> string list \<times> build \<Rightarrow> string list \<times> build" where
  "each_post posts = (\<lambda>(index, post) (tgs, st).
     (add_post_tags post tgs, createPage (post_page posts index post) st))"

definition createPages :: "(gql_query \<Rightarrow> 'd gql_result) \<Rightarrow> build \<Rightarrow> build" where
  "createPages graphql st =
     (let result = graphql posts_query
      in case errors result of
           Some errs \<Rightarrow>
             panicOnBuild ''There was an error loading your blog posts'' errs st
         | None \<Rightarrow>
             (let posts = data_nodes result
              in if length posts > 0
                 then (let (tgs, st1) = fold (each_post posts) (enumerate 0 posts) ([], st)
                       in fold (\<lambda>tag. createPage (tag_page tag)) tgs st1)
                 else st))"

section \<open>The build: Gatsby runs \<^verbatim>\<open>createPages\<close> and the page queries on one store\<close>

definition gatsby_graphql :: "('d::linorder) node list \<Rightarrow> gql_query \<Rightarrow> 'd gql_result" where
  "gatsby_graphql store q = \<lparr>errors = None, data_nodes = allMarkdownRemark store q\<rparr>"

definition init :: build where
  "init = \<lparr>pages = [], panic = None\<rparr>"

definition site_build :: "('d::linorder) node list \<Rightarrow> build" where
  "site_build store = createPages (gatsby_graphql store) init"

text \<open>
  \<^verbatim>\<open>TagTemplate\<close> lists \<^verbatim>\<open>data.allMarkdownRemark.nodes\<close> in the order of the query
  result, and \<^verbatim>\<open>data\<close> is the result of the template's \<^verbatim>\<open>pageQuery\<close> with the
  page context as its variables. The variable \<^verbatim>\<open>$tag\<close> is a required string: without
  it the query does not run.
\<close>

definition TagTemplate_posts :: "('d::linorder) node list \<Rightarrow> page \<Rightarrow> 'd node list option" where
  "TagTemplate_posts store pg =
     (case map_of (pageContext pg) ''tag'' of
        Some (JString tag) \<Rightarrow> Some (allMarkdownRemark store (pageQuery tag))
      | _ \<Rightarrow> None)"

definition tag_pages :: "build \<Rightarrow> page list" where
  "tag_pages st = filter (\<lambda>pg. component pg = tagTemplate) (pages st)"

definition post_pages :: "build \<Rightarrow> page list" where
  "post_pages st = filter (\<lambda>pg. component pg = blogPostTemplate) (pages st)"

text \<open>A post carries the tag \<open>t\<close>: its \<^verbatim>\<open>tags\<close> list is there and contains \<open>t\<close>.\<close>

definition has_tag :: "string \<Rightarrow> 'd node \<Rightarrow> bool" where
  "has_tag t n = (case tags (frontmatter n) of None \<Rightarrow> False | Some ts \<Rightarrow> t \<in> set ts)"

text \<open>The tags in the set after the loop over \<open>posts\<close>, in insertion order.\<close>

definition collect_tags :: "'d node list \<Rightarrow> string list" where
  "collect_tags posts = fold add_post_tags posts []"

text \<open>A GraphQL function that answers with the given nodes and no errors.\<close>

definition answering :: "'d node list \<Rightarrow> gql_query \<Rightarrow> 'd gql_result" where
  "answering posts q = \<lparr>errors = None, data_nodes = posts\<rparr>"

section \<open>Example stores\<close>

definition mk_post :: "string \<Rightarrow> 'd \<Rightarrow> string list option \<Rightarrow> 'd node" where
  "mk_post name d ts =
     \<lparr>node_id = ''id-'' @ name,
      frontmatter = \<lparr>title = name, description = [], date = d, tags = ts\<rparr>,
      node_fields = \<lparr>slug = ''/'' @ name @ ''/''\<rparr>\<rparr>"

text \<open>The two posts of the specification's example, as the store holds them.\<close>

definition spec_example :: "string node list" where
  "spec_example =
     [mk_post ''a'' ''2023-01-01'' (Some [''go'']),
      mk_post ''b'' ''2023-02-01'' (Some [''go'', ''rust''])]"

text \<open>A store out of date order, with a post without \<^verbatim>\<open>tags\<close>, a post with
  \<^verbatim>\<open>tags: []\<close> and two tags that differ in case only.\<close>

definition blog :: "string node list" where
  "blog =
     [mk_post ''queue'' ''2022-02-26'' None,
      mk_post ''ulid'' ''2025-04-23'' (Some [''laravel'', ''php'']),
      mk_post ''repo'' ''2023-03-15'' (Some [''PHP'', ''oop'']),
      mk_post ''note'' ''2023-03-11'' (Some [])]"

text \<open>A store of 1001 posts with the tag \<^verbatim>\<open>go\<close>; the date of post \<open>i\<close> is \<open>i\<close>.\<close>

definition numbered_post :: "nat \<Rightarrow> nat node" where
  "numbered_post i = mk_post (replicate (Suc i) CHR ''x'') i (Some [''go''])"

definition big_store :: "nat node list" where
  "big_store = map numbered_post [0..<1001]"

section \<open>What \<^verbatim>\<open>createPages\<close> registers\<close>

lemma fold_each_post:
  "fold (each_post posts) ixs (tgs, st) =
     (fold (\<lambda>(i, p). add_post_tags p) ixs tgs,
      st\<lparr>pages := pages st @ map (\<lambda>(i, p). post_page posts i p) ixs\<rparr>)"
  by (induction ixs arbitrary: tgs st) (auto simp: each_post_def createPage_def)

lemma fold_enumerate_tags:
  "fold (\<lambda>(i, p). add_post_tags p) (enumerate k xs) tgs = fold add_post_tags xs tgs"
  by (induction xs arbitrary: k tgs) auto

lemma fold_createPage:
  "fold (\<lambda>tag. createPage (f tag)) tgs st = st\<lparr>pages := pages st @ map f tgs\<rparr>"
  by (induction tgs arbitrary: st) (auto simp: createPage_def)

lemma createPages_ok:
  assumes "errors (graphql posts_query) = None"
  shows "createPages graphql st =
           st\<lparr>pages := pages st
                 @ map (\<lambda>(i, p). post_page (data_nodes (graphql posts_query)) i p)
                       (enumerate 0 (data_nodes (graphql posts_query)))
                 @ map tag_page (collect_tags (data_nodes (graphql posts_query)))\<rparr>"
proof -
  let ?posts = "data_nodes (graphql posts_query)"
  have loop: "fold (each_post ?posts) (enumerate 0 ?posts) ([], st) =
      (collect_tags ?posts,
       st\<lparr>pages := pages st @ map (\<lambda>(i, p). post_page ?posts i p) (enumerate 0 ?posts)\<rparr>)"
    by (simp add: fold_each_post fold_enumerate_tags collect_tags_def)
  show ?thesis
  proof (cases "?posts = []")
    case True
    with assms show ?thesis
      by (simp add: createPages_def collect_tags_def)
  next
    case False
    with assms show ?thesis
      by (simp add: createPages_def Let_def loop fold_createPage)
  qed
qed

lemma createPages_errors:
  assumes "errors (graphql posts_query) = Some errs"
  shows "createPages graphql st =
           st\<lparr>panic := Some (''There was an error loading your blog posts'', errs)\<rparr>"
  using assms by (simp add: createPages_def panicOnBuild_def)

lemma set_fold_Set_add: "set (fold Set_add ts tgs) = set tgs \<union> set ts"
  by (induction ts arbitrary: tgs) (auto simp: Set_add_def)

lemma distinct_fold_Set_add: "distinct tgs \<Longrightarrow> distinct (fold Set_add ts tgs)"
  by (induction ts arbitrary: tgs) (auto simp: Set_add_def)

lemma set_add_post_tags: "set (add_post_tags p tgs) = set tgs \<union> {t. has_tag t p}"
  by (auto simp: add_post_tags_def has_tag_def set_fold_Set_add split: option.splits)

lemma distinct_add_post_tags: "distinct tgs \<Longrightarrow> distinct (add_post_tags p tgs)"
  by (auto simp: add_post_tags_def distinct_fold_Set_add split: option.splits)

lemma set_fold_add_post_tags:
  "set (fold add_post_tags ps tgs) = set tgs \<union> {t. \<exists>p\<in>set ps. has_tag t p}"
  by (induction ps arbitrary: tgs) (auto simp: set_add_post_tags)

lemma distinct_fold_add_post_tags:
  "distinct tgs \<Longrightarrow> distinct (fold add_post_tags ps tgs)"
  by (induction ps arbitrary: tgs) (auto simp: distinct_add_post_tags)

lemma set_collect_tags: "set (collect_tags ps) = {t. \<exists>p\<in>set ps. has_tag t p}"
  by (simp add: collect_tags_def set_fold_add_post_tags)

lemma distinct_collect_tags: "distinct (collect_tags ps)"
  by (simp add: collect_tags_def distinct_fold_add_post_tags)

lemma templates_differ: "blogPostTemplate \<noteq> tagTemplate"
  by (simp add: blogPostTemplate_def tagTemplate_def)

lemma component_post_page: "component (post_page posts i p) = blogPostTemplate"
  by (simp add: post_page_def Let_def)

lemma component_tag_page: "component (tag_page t) = tagTemplate"
  by (simp add: tag_page_def)

lemma tag_pages_createPages:
  assumes "errors (graphql posts_query) = None"
  shows "tag_pages (createPages graphql init) =
           map tag_page (collect_tags (data_nodes (graphql posts_query)))"
  using templates_differ assms
  by (simp add: createPages_ok tag_pages_def init_def filter_map o_def
       component_tag_page component_post_page split_def)

lemma post_pages_createPages:
  assumes "errors (graphql posts_query) = None"
  shows "post_pages (createPages graphql init) =
           map (\<lambda>(i, p). post_page (data_nodes (graphql posts_query)) i p)
               (enumerate 0 (data_nodes (graphql posts_query)))"
  using templates_differ[symmetric] assms
  by (simp add: createPages_ok post_pages_def init_def filter_map o_def
       component_tag_page component_post_page split_def)

section \<open>What the two queries return\<close>

lemma tags_in_single: "tags_in [t] n = has_tag t n"
  by (auto simp: tags_in_def has_tag_def list_ex_iff split: option.splits)

lemma set_pageQuery:
  "set (allMarkdownRemark store (pageQuery t)) = {p \<in> set store. has_tag t p}"
  by (auto simp: allMarkdownRemark_def pageQuery_def sort_nodes_def tags_in_single)

lemma sorted_pageQuery:
  "sorted_wrt (\<lambda>a b. date (frontmatter a) \<ge> date (frontmatter b))
     (allMarkdownRemark store (pageQuery t))"
proof -
  let ?k = "\<lambda>n::'a node. date (frontmatter n)"
  have "sorted (map ?k (sort_key ?k (rev (filter (tags_in [t]) store))))"
    by (rule sorted_sort_key)
  then have "sorted_wrt (\<lambda>a b. ?k a \<le> ?k b) (sort_key ?k (rev (filter (tags_in [t]) store)))"
    by (simp add: sorted_map)
  then show ?thesis
    by (simp add: allMarkdownRemark_def pageQuery_def sort_nodes_def sorted_wrt_rev)
qed

lemma posts_query_eq:
  "allMarkdownRemark store posts_query = take 1000 (sort_key (\<lambda>n. date (frontmatter n)) store)"
  by (simp add: allMarkdownRemark_def posts_query_def sort_nodes_def)

lemma set_posts_query: "set (allMarkdownRemark store posts_query) \<subseteq> set store"
  using set_take_subset[of 1000 "sort_key (\<lambda>n. date (frontmatter n)) store"]
  by (simp add: posts_query_eq)

lemma sorted_posts_query:
  "sorted (map (\<lambda>n. date (frontmatter n)) (allMarkdownRemark store posts_query))"
proof -
  have "sorted (take 1000 (map (\<lambda>n. date (frontmatter n))
                  (sort_key (\<lambda>n. date (frontmatter n)) store)))"
    by (rule sorted_wrt_take) (rule sorted_sort_key)
  then show ?thesis
    by (simp add: posts_query_eq take_map)
qed

lemma length_posts_query: "length (allMarkdownRemark store posts_query) \<le> 1000"
  by (simp add: posts_query_eq)

lemma tag_pages_site_build:
  "tag_pages (site_build store) =
     map tag_page (collect_tags (allMarkdownRemark store posts_query))"
  by (simp add: site_build_def tag_pages_createPages gatsby_graphql_def)

lemma post_pages_site_build:
  "post_pages (site_build store) =
     map (\<lambda>(i, p). post_page (allMarkdownRemark store posts_query) i p)
         (enumerate 0 (allMarkdownRemark store posts_query))"
  by (simp add: site_build_def post_pages_createPages gatsby_graphql_def)

lemma TagTemplate_posts_tag_page:
  "TagTemplate_posts store (tag_page t) = Some (allMarkdownRemark store (pageQuery t))"
  by (simp add: TagTemplate_posts_def tag_page_def)

section \<open>Tag pages\<close>

text \<open>
  C1. Every page registered with the tag template carries a tag \<open>t\<close> in its context,
  and the posts the template lists for it are sound and complete: every listed post has
  \<open>t\<close> among its \<^verbatim>\<open>tags\<close>, and every post of the store that has \<open>t\<close> among its
  \<^verbatim>\<open>tags\<close> is listed; in particular every post that \<^verbatim>\<open>createPages\<close> loaded.
\<close>

theorem tag_page_sound_complete:
  assumes "pg \<in> set (tag_pages (site_build store))"
  shows "\<exists>t posts. map_of (pageContext pg) ''tag'' = Some (JString t)
           \<and> TagTemplate_posts store pg = Some posts
           \<and> (\<forall>p\<in>set posts. has_tag t p)
           \<and> (\<forall>p\<in>set store. has_tag t p \<longrightarrow> p \<in> set posts)
           \<and> (\<forall>p\<in>set (data_nodes (gatsby_graphql store posts_query)). has_tag t p \<longrightarrow> p \<in> set posts)"
proof -
  from assms obtain t where pg: "pg = tag_page t"
    by (auto simp: tag_pages_site_build)
  let ?posts = "allMarkdownRemark store (pageQuery t)"
  have "map_of (pageContext pg) ''tag'' = Some (JString t)"
    by (simp add: pg tag_page_def)
  moreover have "TagTemplate_posts store pg = Some ?posts"
    by (simp add: pg TagTemplate_posts_tag_page)
  moreover have "\<forall>p\<in>set ?posts. has_tag t p"
    by (simp add: set_pageQuery)
  moreover have "\<forall>p\<in>set store. has_tag t p \<longrightarrow> p \<in> set ?posts"
    by (simp add: set_pageQuery)
  moreover have "\<forall>p\<in>set (data_nodes (gatsby_graphql store posts_query)). has_tag t p \<longrightarrow> p \<in> set ?posts"
    using set_posts_query[of store] by (auto simp: set_pageQuery gatsby_graphql_def)
  ultimately show ?thesis by blast
qed

theorem tag_page_sound_complete_witness:
  "tag_page ''go'' \<in> set (tag_pages (site_build spec_example))
   \<and> (\<exists>t posts. map_of (pageContext (tag_page ''go'')) ''tag'' = Some (JString t)
           \<and> TagTemplate_posts spec_example (tag_page ''go'') = Some posts
           \<and> (\<forall>p\<in>set posts. has_tag t p)
           \<and> (\<forall>p\<in>set spec_example. has_tag t p \<longrightarrow> p \<in> set posts)
           \<and> (\<forall>p\<in>set (data_nodes (gatsby_graphql spec_example posts_query)). has_tag t p \<longrightarrow> p \<in> set posts))"
proof -
  have h: "tag_page ''go'' \<in> set (tag_pages (site_build spec_example))"
    by code_simp
  from h tag_page_sound_complete[OF h] show ?thesis by blast
qed

text \<open>
  C2. When the query of \<^verbatim>\<open>createPages\<close> succeeds, the number of tag pages it
  registers is the number of distinct tag strings in the \<^verbatim>\<open>tags\<close> of the posts
  the query returned: one page for each, no two pages equal, no two pages on one path.
\<close>

theorem tag_page_count:
  assumes "errors (graphql posts_query) = None"
  shows "length (tag_pages (createPages graphql init))
           = card {t. \<exists>p\<in>set (data_nodes (graphql posts_query)). has_tag t p}
         \<and> distinct (tag_pages (createPages graphql init))
         \<and> distinct (map path (tag_pages (createPages graphql init)))"
proof -
  let ?posts = "data_nodes (graphql posts_query)"
  have eq: "tag_pages (createPages graphql init) = map tag_page (collect_tags ?posts)"
    using assms by (rule tag_pages_createPages)
  have "card (set (collect_tags ?posts)) = length (collect_tags ?posts)"
    by (rule distinct_card) (rule distinct_collect_tags)
  then have len: "length (tag_pages (createPages graphql init))
           = card {t. \<exists>p\<in>set ?posts. has_tag t p}"
    by (simp add: eq set_collect_tags)
  have inj: "inj_on (\<lambda>t. path (tag_page t)) A" for A
    by (rule inj_onI) (simp add: tag_page_def)
  have dp: "distinct (map path (tag_pages (createPages graphql init)))"
    using inj by (simp add: eq distinct_map o_def distinct_collect_tags)
  then have "distinct (tag_pages (createPages graphql init))"
    by (simp add: distinct_map)
  with len dp show ?thesis by blast
qed

theorem tag_page_count_witness:
  "errors (gatsby_graphql blog posts_query) = None
   \<and> length (tag_pages (createPages (gatsby_graphql blog) init)) = 4
   \<and> card {t. \<exists>p\<in>set (data_nodes (gatsby_graphql blog posts_query)). has_tag t p} = 4
   \<and> distinct (map path (tag_pages (createPages (gatsby_graphql blog) init)))"
proof -
  have h: "errors (gatsby_graphql blog posts_query) = None"
    by (simp add: gatsby_graphql_def)
  have n: "length (tag_pages (createPages (gatsby_graphql blog) init)) = 4"
    by code_simp
  from h n tag_page_count[where graphql = "gatsby_graphql blog"] show ?thesis by simp
qed

text \<open>
  C3. On every tag page of the build, the listed posts are in descending order of
  \<^verbatim>\<open>date\<close>: a post never comes before a post of a later date.
\<close>

theorem tag_page_sorted_desc:
  assumes "pg \<in> set (tag_pages (site_build store))"
  shows "\<exists>posts. TagTemplate_posts store pg = Some posts
           \<and> sorted_wrt (\<lambda>a b. date (frontmatter a) \<ge> date (frontmatter b)) posts"
proof -
  from assms obtain t where pg: "pg = tag_page t"
    by (auto simp: tag_pages_site_build)
  show ?thesis
    by (simp add: pg TagTemplate_posts_tag_page sorted_pageQuery)
qed

theorem tag_page_sorted_desc_witness:
  "tag_page ''go'' \<in> set (tag_pages (site_build spec_example))
   \<and> TagTemplate_posts spec_example (tag_page ''go'')
       = Some [mk_post ''b'' ''2023-02-01'' (Some [''go'', ''rust'']),
               mk_post ''a'' ''2023-01-01'' (Some [''go''])]
   \<and> (\<exists>posts. TagTemplate_posts spec_example (tag_page ''go'') = Some posts
           \<and> sorted_wrt (\<lambda>a b. date (frontmatter a) \<ge> date (frontmatter b)) posts)"
proof -
  have h: "tag_page ''go'' \<in> set (tag_pages (site_build spec_example))"
    by code_simp
  have l: "TagTemplate_posts spec_example (tag_page ''go'')
       = Some [mk_post ''b'' ''2023-02-01'' (Some [''go'', ''rust'']),
               mk_post ''a'' ''2023-01-01'' (Some [''go''])]"
    by code_simp
  from h l tag_page_sorted_desc[OF h] show ?thesis by blast
qed

text \<open>
  C6. Every tag page of the build lists at least one post: its tag was taken from a
  loaded post, and that post is in the store the page query runs on.
\<close>

theorem tag_page_nonempty:
  assumes "pg \<in> set (tag_pages (site_build store))"
  shows "\<exists>posts. TagTemplate_posts store pg = Some posts \<and> posts \<noteq> []"
proof -
  from assms obtain t where pg: "pg = tag_page t"
    and t: "t \<in> set (collect_tags (allMarkdownRemark store posts_query))"
    by (auto simp: tag_pages_site_build)
  from t obtain p where "p \<in> set (allMarkdownRemark store posts_query)" and "has_tag t p"
    by (auto simp: set_collect_tags)
  with set_posts_query[of store] have "p \<in> set (allMarkdownRemark store (pageQuery t))"
    by (auto simp: set_pageQuery)
  then have "allMarkdownRemark store (pageQuery t) \<noteq> []"
    by auto
  then show ?thesis
    by (simp add: pg TagTemplate_posts_tag_page)
qed

theorem tag_page_nonempty_witness:
  "tag_page ''rust'' \<in> set (tag_pages (site_build spec_example))
   \<and> (\<exists>posts. TagTemplate_posts spec_example (tag_page ''rust'') = Some posts \<and> posts \<noteq> [])"
proof -
  have h: "tag_page ''rust'' \<in> set (tag_pages (site_build spec_example))"
    by code_simp
  from h tag_page_nonempty[OF h] show ?thesis by blast
qed

section \<open>Page descriptors\<close>

lemma filter_eq_single:
  "distinct xs \<Longrightarrow> x \<in> set xs \<Longrightarrow> filter (\<lambda>y. y = x) xs = [x]"
  by (induction xs) (auto simp: filter_empty_conv)

lemma post_page_no_tag: "map_of (pageContext (post_page posts i p)) ''tag'' = None"
  by (simp add: post_page_def Let_def)

lemma tag_page_tag: "map_of (pageContext (tag_page u)) ''tag'' = Some (JString u)"
  by (simp add: tag_page_def)

text \<open>
  C4, as stated, fails on the specification's own example: the descriptor registered for
  the tag \<^verbatim>\<open>go\<close> has the context \<^verbatim>\<open>{ tag }\<close>, with no property \<^verbatim>\<open>posts\<close>.
\<close>

theorem tag_context_counterexample:
  "hd (tag_pages (site_build spec_example))
     = \<lparr>path = ''/tags/go/'', component = tagTemplate, pageContext = [(''tag'', JString ''go'')]\<rparr>
   \<and> map_of (pageContext (hd (tag_pages (site_build spec_example)))) ''posts'' = None"
  by code_simp

text \<open>
  C4, amended. For every tag \<open>t\<close> of a loaded post, exactly one registered page has
  \<open>t\<close> as the \<^verbatim>\<open>tag\<close> of its context: the page with path \<^verbatim>\<open>/tags/<t>/\<close>, the tag
  template as component and the context \<^verbatim>\<open>{ tag: t }\<close>. The list of matching posts is
  not part of the descriptor: the tag template gets it from its own page query, run with
  that context.
\<close>

theorem one_page_per_tag:
  assumes "errors (graphql posts_query) = None"
    and "p \<in> set (data_nodes (graphql posts_query))"
    and "has_tag t p"
  shows "filter (\<lambda>pg. map_of (pageContext pg) ''tag'' = Some (JString t))
           (pages (createPages graphql init))
         = [\<lparr>path = ''/tags/'' @ t @ ''/'', component = tagTemplate,
             pageContext = [(''tag'', JString t)]\<rparr>]
       \<and> TagTemplate_posts store
           \<lparr>path = ''/tags/'' @ t @ ''/'', component = tagTemplate,
            pageContext = [(''tag'', JString t)]\<rparr>
         = Some (allMarkdownRemark store (pageQuery t))"
proof -
  let ?posts = "data_nodes (graphql posts_query)"
  let ?P = "\<lambda>pg. map_of (pageContext pg) ''tag'' = Some (JString t)"
  have t: "t \<in> set (collect_tags ?posts)"
    using assms(2,3) by (auto simp: set_collect_tags)
  have pages: "pages (createPages graphql init) =
      map (\<lambda>(i, p). post_page ?posts i p) (enumerate 0 ?posts) @ map tag_page (collect_tags ?posts)"
    using assms(1) by (simp add: createPages_ok init_def)
  have a: "filter ?P (map (\<lambda>(i, p). post_page ?posts i p) (enumerate 0 ?posts)) = []"
    by (auto simp: filter_empty_conv post_page_no_tag)
  have "filter ?P (map tag_page (collect_tags ?posts))
          = map tag_page (filter (\<lambda>u. u = t) (collect_tags ?posts))"
    by (simp add: filter_map o_def tag_page_tag)
  also have "\<dots> = [tag_page t]"
    using t by (simp add: filter_eq_single distinct_collect_tags)
  finally have b: "filter ?P (map tag_page (collect_tags ?posts)) = [tag_page t]" .
  have "filter ?P (pages (createPages graphql init)) = [tag_page t]"
    by (simp only: pages filter_append a b append_Nil)
  moreover have "TagTemplate_posts store (tag_page t) = Some (allMarkdownRemark store (pageQuery t))"
    by (rule TagTemplate_posts_tag_page)
  ultimately show ?thesis
    by (simp add: tag_page_def)
qed

theorem one_page_per_tag_witness:
  "errors (gatsby_graphql spec_example posts_query) = None
   \<and> mk_post ''b'' ''2023-02-01'' (Some [''go'', ''rust''])
        \<in> set (data_nodes (gatsby_graphql spec_example posts_query))
   \<and> has_tag ''go'' (mk_post ''b'' ''2023-02-01'' (Some [''go'', ''rust'']))
   \<and> filter (\<lambda>pg. map_of (pageContext pg) ''tag'' = Some (JString ''go''))
           (pages (createPages (gatsby_graphql spec_example) init))
         = [\<lparr>path = ''/tags/go/'', component = tagTemplate,
             pageContext = [(''tag'', JString ''go'')]\<rparr>]
   \<and> TagTemplate_posts spec_example
           \<lparr>path = ''/tags/go/'', component = tagTemplate,
            pageContext = [(''tag'', JString ''go'')]\<rparr>
         = Some (allMarkdownRemark spec_example (pageQuery ''go''))"
proof -
  let ?b = "mk_post ''b'' ''2023-02-01'' (Some [''go'', ''rust''])"
  have h1: "errors (gatsby_graphql spec_example posts_query) = None"
    by (simp add: gatsby_graphql_def)
  have h2: "?b \<in> set (data_nodes (gatsby_graphql spec_example posts_query))"
    by code_simp
  have h3: "has_tag ''go'' ?b"
    by code_simp
  from h1 h2 h3
    one_page_per_tag[where graphql = "gatsby_graphql spec_example" and p = ?b
      and t = "''go''" and store = spec_example]
  show ?thesis by simp
qed

section \<open>Post pages\<close>

lemma post_pages_nth:
  assumes "i < length (allMarkdownRemark store posts_query)"
  shows "post_pages (site_build store) ! i =
           post_page (allMarkdownRemark store posts_query) i
             (allMarkdownRemark store posts_query ! i)"
  using assms by (simp add: post_pages_site_build nth_enumerate_eq)

text \<open>
  C5. The loaded posts are in ascending order of date; the build registers one post page
  for each, in that order; the page of the post at position \<open>i\<close> has the post's slug as
  its path and the context \<^verbatim>\<open>{ id, previousPostId, nextPostId }\<close>, where
  \<^verbatim>\<open>previousPostId\<close> is the id of the post at \<open>i - 1\<close> (of an earlier or equal date) and
  \<^verbatim>\<open>null\<close> for the first post, and \<^verbatim>\<open>nextPostId\<close> is the id of the post at
  \<open>i + 1\<close> (of a later or equal date) and \<^verbatim>\<open>null\<close> for the last post.
\<close>

theorem post_pages_linked:
  fixes store :: "('d::linorder) node list"
  defines "posts \<equiv> allMarkdownRemark store posts_query"
  shows "sorted (map (\<lambda>n. date (frontmatter n)) posts)
       \<and> length (post_pages (site_build store)) = length posts
       \<and> (\<forall>i<length posts.
            path (post_pages (site_build store) ! i) = slug (node_fields (posts ! i))
          \<and> pageContext (post_pages (site_build store) ! i) =
              [(''id'', JString (node_id (posts ! i))),
               (''previousPostId'',
                  if i = 0 then JNull else JString (node_id (posts ! (i - 1)))),
               (''nextPostId'',
                  if Suc i = length posts then JNull else JString (node_id (posts ! Suc i)))]
          \<and> (0 < i \<longrightarrow> date (frontmatter (posts ! (i - 1))) \<le> date (frontmatter (posts ! i)))
          \<and> (Suc i < length posts \<longrightarrow>
                date (frontmatter (posts ! i)) \<le> date (frontmatter (posts ! Suc i))))"
proof -
  have s: "sorted (map (\<lambda>n. date (frontmatter n)) posts)"
    unfolding posts_def by (rule sorted_posts_query)
  have l: "length (post_pages (site_build store)) = length posts"
    by (simp add: post_pages_site_build posts_def)
  have "path (post_pages (site_build store) ! i) = slug (node_fields (posts ! i))
          \<and> pageContext (post_pages (site_build store) ! i) =
              [(''id'', JString (node_id (posts ! i))),
               (''previousPostId'',
                  if i = 0 then JNull else JString (node_id (posts ! (i - 1)))),
               (''nextPostId'',
                  if Suc i = length posts then JNull else JString (node_id (posts ! Suc i)))]
          \<and> (0 < i \<longrightarrow> date (frontmatter (posts ! (i - 1))) \<le> date (frontmatter (posts ! i)))
          \<and> (Suc i < length posts \<longrightarrow>
                date (frontmatter (posts ! i)) \<le> date (frontmatter (posts ! Suc i)))"
    if i: "i < length posts" for i
  proof -
    have pg: "post_pages (site_build store) ! i = post_page posts i (posts ! i)"
      using i unfolding posts_def by (rule post_pages_nth)
    have nxt: "(int i = int (length posts) - 1) = (Suc i = length posts)"
      by auto
    have a: "path (post_pages (site_build store) ! i) = slug (node_fields (posts ! i))"
      by (simp add: pg post_page_def Let_def)
    have b: "pageContext (post_pages (site_build store) ! i) =
              [(''id'', JString (node_id (posts ! i))),
               (''previousPostId'',
                  if i = 0 then JNull else JString (node_id (posts ! (i - 1)))),
               (''nextPostId'',
                  if Suc i = length posts then JNull else JString (node_id (posts ! Suc i)))]"
      by (simp add: pg post_page_def Let_def nxt)
    have c: "date (frontmatter (posts ! j)) \<le> date (frontmatter (posts ! k))"
      if "j \<le> k" "k < length posts" for j k
      using sorted_nth_mono[OF s, of j k] that by simp
    have d: "0 < i \<longrightarrow> date (frontmatter (posts ! (i - 1))) \<le> date (frontmatter (posts ! i))"
      using c[of "i - 1" i] i by simp
    have e: "Suc i < length posts \<longrightarrow>
                date (frontmatter (posts ! i)) \<le> date (frontmatter (posts ! Suc i))"
      using c[of i "Suc i"] by simp
    from a b d e show ?thesis by blast
  qed
  with s l show ?thesis by blast
qed

theorem post_pages_linked_witness:
  "map node_id (allMarkdownRemark blog posts_query)
     = [''id-queue'', ''id-note'', ''id-repo'', ''id-ulid'']
   \<and> pageContext (post_pages (site_build blog) ! 0) =
       [(''id'', JString ''id-queue''), (''previousPostId'', JNull),
        (''nextPostId'', JString ''id-note'')]
   \<and> path (post_pages (site_build blog) ! 1) = ''/note/''
   \<and> pageContext (post_pages (site_build blog) ! 1) =
       [(''id'', JString ''id-note''), (''previousPostId'', JString ''id-queue''),
        (''nextPostId'', JString ''id-repo'')]
   \<and> pageContext (post_pages (site_build blog) ! 3) =
       [(''id'', JString ''id-ulid''), (''previousPostId'', JString ''id-repo''),
        (''nextPostId'', JNull)]"
proof -
  let ?ps = "[mk_post ''queue'' ''2022-02-26'' None,
       mk_post ''note'' ''2023-03-11'' (Some []),
       mk_post ''repo'' ''2023-03-15'' (Some [''PHP'', ''oop'']),
       mk_post ''ulid'' ''2025-04-23'' (Some [''laravel'', ''php''])] :: string node list"
  have ps: "allMarkdownRemark blog posts_query = ?ps"
    by code_simp
  have each: "path (post_pages (site_build blog) ! i) = slug (node_fields (?ps ! i))
      \<and> pageContext (post_pages (site_build blog) ! i) =
          [(''id'', JString (node_id (?ps ! i))),
           (''previousPostId'', if i = 0 then JNull else JString (node_id (?ps ! (i - 1)))),
           (''nextPostId'', if Suc i = 4 then JNull else JString (node_id (?ps ! Suc i)))]"
    if "i < 4" for i
    using post_pages_linked[of blog, unfolded ps] that by simp
  from each[of 0] each[of 1] each[of 3] show ?thesis
    by (simp add: ps mk_post_def)
qed

section \<open>Posts without tags, tags as authored, repeated runs\<close>

lemma add_post_tags_untagged:
  "tags (frontmatter p) = None \<or> tags (frontmatter p) = Some [] \<Longrightarrow> add_post_tags p tgs = tgs"
  by (auto simp: add_post_tags_def)

lemma collect_tags_untagged:
  assumes "tags (frontmatter p) = None \<or> tags (frontmatter p) = Some []"
  shows "collect_tags (xs @ p # ys) = collect_tags (xs @ ys)"
  using assms by (simp add: collect_tags_def add_post_tags_untagged)

lemma errors_answering: "errors (answering posts q) = None"
  by (simp add: answering_def)

lemma data_nodes_answering: "data_nodes (answering posts q) = posts"
  by (simp add: answering_def)

text \<open>
  C7. A post \<open>p\<close> whose \<^verbatim>\<open>tags\<close> is missing or empty contributes no tags: the tag
  pages are those of the same posts without \<open>p\<close>. It is listed by no tag page, whatever
  the store and the page. And it is no error: \<^verbatim>\<open>createPages\<close> does not panic and
  registers the post page of \<open>p\<close>.
\<close>

theorem untagged_post:
  assumes "tags (frontmatter p) = None \<or> tags (frontmatter p) = Some []"
  shows "tag_pages (createPages (answering (xs @ p # ys)) init)
           = tag_pages (createPages (answering (xs @ ys)) init)
       \<and> (\<forall>pg posts. TagTemplate_posts store pg = Some posts \<longrightarrow> p \<notin> set posts)
       \<and> panic (createPages (answering (xs @ p # ys)) init) = None
       \<and> post_page (xs @ p # ys) (length xs) p
           \<in> set (pages (createPages (answering (xs @ p # ys)) init))"
proof -
  have a: "tag_pages (createPages (answering (xs @ p # ys)) init)
           = tag_pages (createPages (answering (xs @ ys)) init)"
    using assms
    by (simp add: tag_pages_createPages errors_answering data_nodes_answering
          collect_tags_untagged)
  have nt: "\<not> has_tag t p" for t
    using assms by (auto simp: has_tag_def)
  have b: "\<forall>pg posts. TagTemplate_posts store pg = Some posts \<longrightarrow> p \<notin> set posts"
    by (auto simp: TagTemplate_posts_def set_pageQuery nt split: option.splits jsval.splits)
  have c: "panic (createPages (answering (xs @ p # ys)) init) = None"
    by (simp add: createPages_ok errors_answering init_def)
  have "(length xs, p) \<in> set (enumerate 0 (xs @ p # ys))"
    by (simp add: in_set_enumerate_eq)
  then have "post_page (xs @ p # ys) (length xs) p
      \<in> set (map (\<lambda>(i, q). post_page (xs @ p # ys) i q) (enumerate 0 (xs @ p # ys)))"
    by (force simp del: enumerate_append_eq)
  then have d: "post_page (xs @ p # ys) (length xs) p
           \<in> set (pages (createPages (answering (xs @ p # ys)) init))"
    by (simp add: createPages_ok errors_answering data_nodes_answering init_def
          del: enumerate_append_eq)
  from a b c d show ?thesis by blast
qed

theorem untagged_post_witness:
  "(tags (frontmatter (mk_post ''queue'' ''2022-02-26'' None)) = None
      \<or> tags (frontmatter (mk_post ''queue'' ''2022-02-26'' None)) = Some [])
   \<and> tag_pages (createPages (answering ([] @ mk_post ''queue'' ''2022-02-26'' None # spec_example)) init)
       = tag_pages (createPages (answering ([] @ spec_example)) init)
   \<and> panic (createPages (answering ([] @ mk_post ''queue'' ''2022-02-26'' None # spec_example)) init) = None
   \<and> map path (pages (createPages (answering ([] @ mk_post ''queue'' ''2022-02-26'' None # spec_example)) init))
       = [''/queue/'', ''/a/'', ''/b/'', ''/tags/go/'', ''/tags/rust/'']"
proof -
  let ?p = "mk_post ''queue'' ''2022-02-26'' None :: string node"
  have h: "tags (frontmatter ?p) = None \<or> tags (frontmatter ?p) = Some []"
    by (simp add: mk_post_def)
  have e: "map path (pages (createPages (answering ([] @ ?p # spec_example)) init))
       = [''/queue/'', ''/a/'', ''/b/'', ''/tags/go/'', ''/tags/rust/'']"
    by code_simp
  from h e untagged_post[OF h, of "[]" spec_example] show ?thesis by blast
qed

text \<open>
  C8. Tags are used as authored: two different tag strings of loaded posts, in particular
  two that differ in letter case only, give two different tag pages, each with the
  string itself in its path and in its context.
\<close>

theorem distinct_tags_distinct_pages:
  assumes "errors (graphql posts_query) = None"
    and "p1 \<in> set (data_nodes (graphql posts_query))" and "has_tag t1 p1"
    and "p2 \<in> set (data_nodes (graphql posts_query))" and "has_tag t2 p2"
    and "t1 \<noteq> t2"
  shows "tag_page t1 \<in> set (tag_pages (createPages graphql init))
       \<and> tag_page t2 \<in> set (tag_pages (createPages graphql init))
       \<and> tag_page t1 \<noteq> tag_page t2
       \<and> path (tag_page t1) = ''/tags/'' @ t1 @ ''/''
       \<and> path (tag_page t2) = ''/tags/'' @ t2 @ ''/''
       \<and> path (tag_page t1) \<noteq> path (tag_page t2)
       \<and> pageContext (tag_page t1) = [(''tag'', JString t1)]
       \<and> pageContext (tag_page t2) = [(''tag'', JString t2)]"
proof -
  have "t1 \<in> set (collect_tags (data_nodes (graphql posts_query)))"
    using assms(2,3) by (auto simp: set_collect_tags)
  then have a: "tag_page t1 \<in> set (tag_pages (createPages graphql init))"
    using assms(1) by (simp add: tag_pages_createPages)
  have "t2 \<in> set (collect_tags (data_nodes (graphql posts_query)))"
    using assms(4,5) by (auto simp: set_collect_tags)
  then have b: "tag_page t2 \<in> set (tag_pages (createPages graphql init))"
    using assms(1) by (simp add: tag_pages_createPages)
  have c: "path (tag_page t1) \<noteq> path (tag_page t2)"
    using assms(6) by (simp add: tag_page_def)
  then have d: "tag_page t1 \<noteq> tag_page t2"
    by auto
  from a b c d show ?thesis
    by (simp add: tag_page_def)
qed

theorem distinct_tags_distinct_pages_witness:
  "errors (gatsby_graphql blog posts_query) = None
   \<and> mk_post ''ulid'' ''2025-04-23'' (Some [''laravel'', ''php''])
        \<in> set (data_nodes (gatsby_graphql blog posts_query))
   \<and> has_tag ''php'' (mk_post ''ulid'' ''2025-04-23'' (Some [''laravel'', ''php'']))
   \<and> mk_post ''repo'' ''2023-03-15'' (Some [''PHP'', ''oop''])
        \<in> set (data_nodes (gatsby_graphql blog posts_query))
   \<and> has_tag ''PHP'' (mk_post ''repo'' ''2023-03-15'' (Some [''PHP'', ''oop'']))
   \<and> ''php'' \<noteq> ''PHP''
   \<and> tag_page ''php'' \<in> set (tag_pages (createPages (gatsby_graphql blog) init))
   \<and> tag_page ''PHP'' \<in> set (tag_pages (createPages (gatsby_graphql blog) init))
   \<and> path (tag_page ''php'') = ''/tags/php/''
   \<and> path (tag_page ''PHP'') = ''/tags/PHP/''"
proof -
  let ?u = "mk_post ''ulid'' ''2025-04-23'' (Some [''laravel'', ''php'']) :: string node"
  let ?r = "mk_post ''repo'' ''2023-03-15'' (Some [''PHP'', ''oop'']) :: string node"
  have h1: "errors (gatsby_graphql blog posts_query) = None"
    by (simp add: gatsby_graphql_def)
  have h2: "?u \<in> set (data_nodes (gatsby_graphql blog posts_query))"
    by code_simp
  have h3: "has_tag ''php'' ?u"
    by code_simp
  have h4: "?r \<in> set (data_nodes (gatsby_graphql blog posts_query))"
    by code_simp
  have h5: "has_tag ''PHP'' ?r"
    by code_simp
  have h6: "''php'' \<noteq> ''PHP''"
    by simp
  from h1 h2 h3 h4 h5 h6
    distinct_tags_distinct_pages[where graphql = "gatsby_graphql blog", OF h1 h2 h3 h4 h5 h6]
  show ?thesis by simp
qed

text \<open>
  C9. The page descriptors a run of \<^verbatim>\<open>createPages\<close> registers depend on the posts its
  query returns and on nothing else: two runs whose queries return the same result
  register the same list of descriptors, whatever was registered before each run.
\<close>

theorem createPages_deterministic:
  assumes "g1 posts_query = g2 posts_query"
  shows "drop (length (pages s1)) (pages (createPages g1 s1))
           = drop (length (pages s2)) (pages (createPages g2 s2))"
proof (cases "errors (g1 posts_query)")
  case None
  with assms have "errors (g2 posts_query) = None" by simp
  with None assms show ?thesis
    by (simp add: createPages_ok)
next
  case (Some errs)
  with assms have "errors (g2 posts_query) = Some errs" by simp
  with Some show ?thesis
    by (simp add: createPages_errors)
qed

theorem createPages_deterministic_witness:
  "gatsby_graphql blog posts_query = answering (allMarkdownRemark blog posts_query) posts_query
   \<and> drop (length (pages init)) (pages (createPages (gatsby_graphql blog) init))
       = drop (length (pages (site_build blog)))
           (pages (createPages (answering (allMarkdownRemark blog posts_query)) (site_build blog)))
   \<and> length (pages (site_build blog)) = 8"
proof -
  have h: "gatsby_graphql blog posts_query
             = answering (allMarkdownRemark blog posts_query) posts_query"
    by (simp add: gatsby_graphql_def answering_def)
  have n: "length (pages (site_build blog)) = 8"
    by code_simp
  from h n createPages_deterministic[where ?g1.0 = "gatsby_graphql blog"
      and ?g2.0 = "answering (allMarkdownRemark blog posts_query)"
      and ?s1.0 = init and ?s2.0 = "site_build blog"] show ?thesis by blast
qed

section \<open>The limit of the posts query\<close>

lemma createPages_cong:
  "g1 posts_query = g2 posts_query \<Longrightarrow> createPages g1 st = createPages g2 st"
  by (simp add: createPages_def)

lemma take_filter_notin:
  "x \<notin> set (take n xs) \<Longrightarrow> take n (filter (\<lambda>y. x \<noteq> y) xs) = take n xs"
proof (induction xs arbitrary: n)
  case Nil
  then show ?case by simp
next
  case (Cons y ys)
  then show ?case by (cases n) auto
qed

lemma posts_query_removeAll:
  assumes "p \<notin> set (allMarkdownRemark store posts_query)"
  shows "allMarkdownRemark (removeAll p store) posts_query = allMarkdownRemark store posts_query"
proof -
  let ?k = "\<lambda>n::'a node. date (frontmatter n)"
  have "sort_key ?k (removeAll p store) = filter (\<lambda>y. p \<noteq> y) (sort_key ?k store)"
    by (simp add: removeAll_filter_not_eq filter_sort)
  with assms show ?thesis
    by (simp add: posts_query_eq take_filter_notin)
qed

lemma date_numbered_post: "date (frontmatter (numbered_post i)) = i"
  by (simp add: numbered_post_def mk_post_def)

lemma has_tag_numbered_post: "has_tag ''go'' (numbered_post i)"
  by (simp add: numbered_post_def mk_post_def has_tag_def)

lemma inj_numbered_post: "numbered_post i = numbered_post j \<Longrightarrow> i = j"
proof -
  assume "numbered_post i = numbered_post j"
  then have "date (frontmatter (numbered_post i)) = date (frontmatter (numbered_post j))"
    by (rule arg_cong)
  then show "i = j"
    by (simp only: date_numbered_post)
qed

lemma node_id_numbered_post:
  "node_id (numbered_post i) = node_id (numbered_post j) \<Longrightarrow> i = j"
proof -
  assume "node_id (numbered_post i) = node_id (numbered_post j)"
  then have "replicate (Suc i) CHR ''x'' = replicate (Suc j) CHR ''x''"
    by (simp add: numbered_post_def mk_post_def)
  then have "length (replicate (Suc i) CHR ''x'') = length (replicate (Suc j) CHR ''x'')"
    by (rule arg_cong)
  then show "i = j" by simp
qed

lemma big_store_loaded:
  "allMarkdownRemark big_store posts_query = map numbered_post [0..<1000]"
proof -
  let ?k = "\<lambda>n::nat node. date (frontmatter n)"
  have "map ?k big_store = [0..<1001]"
    by (simp add: big_store_def o_def date_numbered_post map_idI del: upt_rec_numeral)
  then have "sorted (map ?k big_store)"
    by (simp del: upt_rec_numeral)
  then have "sort_key ?k big_store = big_store"
    by (rule sort_key_id_if_sorted)
  then have "allMarkdownRemark big_store posts_query = take 1000 (map numbered_post [0..<1001])"
    by (simp add: posts_query_eq big_store_def del: upt_rec_numeral)
  also have "\<dots> = map numbered_post [0..<1000]"
    by (simp add: take_map del: upt_rec_numeral)
  finally show ?thesis .
qed

lemma late_in_store: "numbered_post 1000 \<in> set big_store"
  by (simp add: big_store_def del: upt_rec_numeral)

lemma late_not_loaded: "numbered_post 1000 \<notin> set (allMarkdownRemark big_store posts_query)"
  by (auto simp: big_store_loaded simp del: upt_rec_numeral dest: inj_numbered_post)

lemma distinct_ids_big_store: "distinct (map node_id big_store)"
  by (auto simp: big_store_def distinct_map inj_on_def simp del: upt_rec_numeral
       dest: node_id_numbered_post inj_numbered_post)

text \<open>
  C10, as stated, fails on a store of 1001 posts tagged \<^verbatim>\<open>go\<close>: the latest post is
  beyond the limit of the posts query, and the tag page of \<^verbatim>\<open>go\<close> lists it.
\<close>

theorem limit_counterexample:
  "numbered_post 1000 \<in> set big_store
   \<and> numbered_post 1000 \<notin> set (allMarkdownRemark big_store posts_query)
   \<and> tag_page ''go'' \<in> set (tag_pages (site_build big_store))
   \<and> TagTemplate_posts big_store (tag_page ''go'')
       = Some (allMarkdownRemark big_store (pageQuery ''go''))
   \<and> numbered_post 1000 \<in> set (allMarkdownRemark big_store (pageQuery ''go''))"
proof -
  have "numbered_post 0 \<in> set (allMarkdownRemark big_store posts_query)"
    by (simp add: big_store_loaded del: upt_rec_numeral)
  with has_tag_numbered_post[of 0]
  have "''go'' \<in> set (collect_tags (allMarkdownRemark big_store posts_query))"
    unfolding set_collect_tags by blast
  then have "tag_page ''go'' \<in> set (tag_pages (site_build big_store))"
    by (simp add: tag_pages_site_build)
  moreover have "numbered_post 1000 \<in> set (allMarkdownRemark big_store (pageQuery ''go''))"
    by (simp add: set_pageQuery late_in_store has_tag_numbered_post)
  ultimately show ?thesis
    using late_in_store late_not_loaded TagTemplate_posts_tag_page by blast
qed

text \<open>
  C10, amended. The posts query loads at most 1000 posts, the first in ascending order
  of date. A post \<open>p\<close> of the store beyond that limit gets no post page and contributes no
  tags: the build registers the pages it registers on the store without \<open>p\<close>, and, when
  the ids of the store are distinct, no post page has the id of \<open>p\<close>. But \<open>p\<close> is listed
  on the tag page of each of its tags, since the page query of the tag template has no
  limit.
\<close>

theorem limit_1000:
  assumes "p \<in> set store" and "p \<notin> set (allMarkdownRemark store posts_query)"
  shows "length (allMarkdownRemark store posts_query) \<le> 1000
       \<and> site_build store = site_build (removeAll p store)
       \<and> (distinct (map node_id store) \<longrightarrow>
            (\<forall>pg\<in>set (post_pages (site_build store)).
               map_of (pageContext pg) ''id'' \<noteq> Some (JString (node_id p))))
       \<and> (\<forall>t. has_tag t p \<longrightarrow> p \<in> set (allMarkdownRemark store (pageQuery t)))"
proof -
  let ?posts = "allMarkdownRemark store posts_query"
  have a: "length ?posts \<le> 1000"
    by (rule length_posts_query)
  have "gatsby_graphql store posts_query = gatsby_graphql (removeAll p store) posts_query"
    using assms(2) by (simp add: gatsby_graphql_def posts_query_removeAll)
  then have b: "site_build store = site_build (removeAll p store)"
    unfolding site_build_def by (rule createPages_cong)
  have c: "map_of (pageContext pg) ''id'' \<noteq> Some (JString (node_id p))"
    if d: "distinct (map node_id store)" and pg: "pg \<in> set (post_pages (site_build store))" for pg
  proof -
    from pg obtain i q where iq: "(i, q) \<in> set (enumerate 0 ?posts)"
      and pgeq: "pg = post_page ?posts i q"
      by (auto simp: post_pages_site_build)
    from iq have q: "q \<in> set ?posts"
      by (auto simp: in_set_enumerate_eq)
    with set_posts_query[of store] have qs: "q \<in> set store" by blast
    from q assms(2) have "q \<noteq> p" by blast
    moreover from d have "inj_on node_id (set store)"
      by (simp add: distinct_map)
    ultimately have "node_id q \<noteq> node_id p"
      using qs assms(1) by (auto dest: inj_onD)
    then show ?thesis
      by (simp add: pgeq post_page_def Let_def)
  qed
  have e: "\<forall>t. has_tag t p \<longrightarrow> p \<in> set (allMarkdownRemark store (pageQuery t))"
    using assms(1) by (simp add: set_pageQuery)
  from a b c e show ?thesis by blast
qed

theorem limit_1000_witness:
  "numbered_post 1000 \<in> set big_store
   \<and> numbered_post 1000 \<notin> set (allMarkdownRemark big_store posts_query)
   \<and> distinct (map node_id big_store)
   \<and> has_tag ''go'' (numbered_post 1000)
   \<and> length (allMarkdownRemark big_store posts_query) \<le> 1000
   \<and> site_build big_store = site_build (removeAll (numbered_post 1000) big_store)
   \<and> Some (JString (node_id (numbered_post 1000)))
        \<notin> (\<lambda>pg. map_of (pageContext pg) ''id'') ` set (post_pages (site_build big_store))
   \<and> numbered_post 1000 \<in> set (allMarkdownRemark big_store (pageQuery ''go''))"
proof -
  note th = limit_1000[OF late_in_store late_not_loaded]
  from th distinct_ids_big_store
  have "\<forall>pg\<in>set (post_pages (site_build big_store)).
          map_of (pageContext pg) ''id'' \<noteq> Some (JString (node_id (numbered_post 1000)))"
    by blast
  then have "Some (JString (node_id (numbered_post 1000)))
        \<notin> (\<lambda>pg. map_of (pageContext pg) ''id'') ` set (post_pages (site_build big_store))"
    by (auto simp del: upt_rec_numeral)
  with th late_in_store late_not_loaded distinct_ids_big_store has_tag_numbered_post[of 1000]
  show ?thesis by blast
qed

end
